theory Spec2Isabelle
  imports Main
begin

section \<open>JavaScript primitives used by the two screens\<close>

text \<open>
  Identifiers and array indices are JavaScript numbers that hold integers; they are
  modelled as \<open>int\<close>. Strict equality \<open>===\<close> on such values is HOL equality. Strings
  are \<open>string\<close>. A promise that settles is a value of \<open>'a response\<close>.
\<close>

datatype 'a response = Resolved 'a | Rejected

text \<open>
  \<open>Array.prototype.findIndex\<close>: the index of the first element that satisfies the
  callback, scanning from index 0 upwards, and \<open>-1\<close> when there is none.
\<close>

fun findIndex_from :: "('a \<Rightarrow> bool) \<Rightarrow> 'a list \<Rightarrow> int \<Rightarrow> int" where
  "findIndex_from p [] i = - 1"
| "findIndex_from p (x # xs) i = (if p x then i else findIndex_from p xs (i + 1))"

definition findIndex :: "('a \<Rightarrow> bool) \<Rightarrow> 'a list \<Rightarrow> int" where
  "findIndex p xs = findIndex_from p xs 0"

text \<open>
  \<open>Array.prototype.filter\<close> with the three-argument callback
  \<open>(element, index, array)\<close>: the array itself is handed to every call.
\<close>

fun filter_from :: "('a \<Rightarrow> int \<Rightarrow> 'a list \<Rightarrow> bool) \<Rightarrow> 'a list \<Rightarrow> 'a list \<Rightarrow> int \<Rightarrow> 'a list" where
  "filter_from f self [] i = []"
| "filter_from f self (x # xs) i =
     (if f x i self then x # filter_from f self xs (i + 1) else filter_from f self xs (i + 1))"

definition filter_js :: "('a \<Rightarrow> int \<Rightarrow> 'a list \<Rightarrow> bool) \<Rightarrow> 'a list \<Rightarrow> 'a list" where
  "filter_js f xs = filter_from f xs xs 0"

text \<open>\<open>Array.prototype.map\<close> with the two-argument callback \<open>(element, index)\<close>.\<close>

fun map_from :: "('a \<Rightarrow> int \<Rightarrow> 'b) \<Rightarrow> 'a list \<Rightarrow> int \<Rightarrow> 'b list" where
  "map_from f [] i = []"
| "map_from f (x # xs) i = f x i # map_from f xs (i + 1)"

definition map_js :: "('a \<Rightarrow> int \<Rightarrow> 'b) \<Rightarrow> 'a list \<Rightarrow> 'b list" where
  "map_js f xs = map_from f xs 0"

text \<open>\<open>Array.prototype.join\<close>: the elements with the separator between neighbours.\<close>

fun join :: "string \<Rightarrow> string list \<Rightarrow> string" where
  "join sep [] = []"
| "join sep [x] = x"
| "join sep (x # y # ys) = x @ sep @ join sep (y # ys)"

text \<open>
  Conversion of an integer-valued number to a string, as a template literal does it:
  decimal digits, most significant first, with a leading minus sign for a negative value.
\<close>

definition digit_char :: "nat \<Rightarrow> char" where
  "digit_char d = ''0123456789'' ! d"

function string_of_nat :: "nat \<Rightarrow> string" where
  "string_of_nat n =
     (if n < 10 then [digit_char n] else string_of_nat (n div 10) @ [digit_char (n mod 10)])"
  by pat_completeness auto
termination
  by (relation "measure (\<lambda>n. n)") auto

declare string_of_nat.simps [simp del]

definition string_of_number :: "int \<Rightarrow> string" where
  "string_of_number i =
     (if i < 0 then CHR ''-'' # string_of_nat (nat (- i)) else string_of_nat (nat i))"

section \<open>The word list screen (home.tsx)\<close>

subsection \<open>Data model\<close>

record Meaning =
  meaning :: string

record WordData =
  wordId :: int
  sentenceId :: int
  word :: string
  meanings :: "Meaning list"

record ProcessedWord = WordData +
  formattedMeanings :: string
  isMeaningVisible :: bool

text \<open>The component state held by the three \<open>useState\<close> hooks of \<open>HomeScreen\<close>.\<close>

record HomeState =
  words :: "ProcessedWord list"
  isLoading :: bool
  showAllMeanings :: bool

definition initialHome :: HomeState where
  "initialHome = \<lparr>words = [], isLoading = True, showAllMeanings = False\<rparr>"

subsection \<open>fetchWords\<close>

text \<open>
  The deduplication of \<open>fetchWords\<close>: an element is kept when its own index is the
  index \<open>findIndex\<close> returns for its \<open>wordId\<close>.
\<close>

definition uniqueWords :: "WordData list \<Rightarrow> WordData list" where
  "uniqueWords allWords =
     filter_js (\<lambda>w index self. index = findIndex (\<lambda>v. wordId v = wordId w) self) allWords"

text \<open>The numbered meanings joined by one space: \<open>1. first 2. second\<close>.\<close>

definition formatMeanings :: "Meaning list \<Rightarrow> string" where
  "formatMeanings ms =
     join '' '' (map_js (\<lambda>m index. string_of_number (index + 1) @ ''. '' @ meaning m) ms)"

text \<open>The object spread that turns a fetched entry into a row of the list.\<close>

definition processWord :: "WordData \<Rightarrow> ProcessedWord" where
  "processWord w =
     \<lparr>wordId = wordId w, sentenceId = sentenceId w, word = word w, meanings = meanings w,
      formattedMeanings = formatMeanings (meanings w), isMeaningVisible = False\<rparr>"

definition processedData :: "WordData list \<Rightarrow> ProcessedWord list" where
  "processedData allWords = map processWord (uniqueWords allWords)"

text \<open>
  One run of \<open>fetchWords\<close>, from \<open>setIsLoading(true)\<close> to the \<open>finally\<close> block. The
  argument is how the request settled. Everything between the request and \<open>setWords\<close>
  is inside the \<open>try\<close>, so a rejected request reaches only the \<open>catch\<close> (which logs
  to the console and sets no state) and the \<open>finally\<close>. While \<open>isLoading\<close> holds the
  screen renders only the activity indicator, so no other handler runs in between.
\<close>

definition fetchWords :: "WordData list response \<Rightarrow> HomeState \<Rightarrow> HomeState" where
  "fetchWords r s =
     (let s1 = s\<lparr>isLoading := True\<rparr> in
      case r of
        Resolved allWords \<Rightarrow> s1\<lparr>words := processedData allWords, isLoading := False\<rparr>
      | Rejected \<Rightarrow> s1\<lparr>isLoading := False\<rparr>)"

subsection \<open>The toggles\<close>

text \<open>The key of a row, built by \<open>WordCard\<close>, \<open>handleItemToggle\<close> and \<open>keyExtractor\<close>.\<close>

definition uniqueId :: "int \<Rightarrow> int \<Rightarrow> string" where
  "uniqueId wid sid = string_of_number wid @ ''-'' @ string_of_number sid"

definition keyExtractor :: "ProcessedWord \<Rightarrow> string" where
  "keyExtractor item = uniqueId (wordId item) (sentenceId item)"

text \<open>
  A handler runs on the state of the render that created it; presses are handled one
  at a time with a render in between, so that state is the current one.
\<close>

definition handleToggleAllMeanings :: "HomeState \<Rightarrow> HomeState" where
  "handleToggleAllMeanings s =
     (let newShowAllState = \<not> showAllMeanings s in
      s\<lparr>showAllMeanings := newShowAllState,
        words := map (\<lambda>w. w\<lparr>isMeaningVisible := newShowAllState\<rparr>) (words s)\<rparr>)"

definition handleItemToggle :: "string \<Rightarrow> HomeState \<Rightarrow> HomeState" where
  "handleItemToggle uid s =
     s\<lparr>words := map (\<lambda>w. if uniqueId (wordId w) (sentenceId w) = uid
                            then w\<lparr>isMeaningVisible := \<not> isMeaningVisible w\<rparr> else w) (words s)\<rparr>"

subsection \<open>Histories of the screen\<close>

text \<open>
  What can happen to the mounted screen: a run of \<open>fetchWords\<close> (the one of the
  mount effect or one started by the refresh button) settles, the header checkbox is
  pressed, or the toggle of a row is pressed with that row's key.
\<close>

datatype HomeEvent =
  FetchSettled "WordData list response"
| PressToggleAll
| PressItemToggle string

fun homeStep :: "HomeState \<Rightarrow> HomeEvent \<Rightarrow> HomeState" where
  "homeStep s (FetchSettled r) = fetchWords r s"
| "homeStep s PressToggleAll = handleToggleAllMeanings s"
| "homeStep s (PressItemToggle uid) = handleItemToggle uid s"

definition homeRun :: "HomeEvent list \<Rightarrow> HomeState" where
  "homeRun evs = foldl homeStep initialHome evs"

text \<open>The payload of the most recent fetch of a history that succeeded, if any.\<close>

fun lastFetched :: "HomeEvent list \<Rightarrow> WordData list option" where
  "lastFetched [] = None"
| "lastFetched (FetchSettled (Resolved allWords) # evs) =
     (case lastFetched evs of None \<Rightarrow> Some allWords | Some later \<Rightarrow> Some later)"
| "lastFetched (_ # evs) = lastFetched evs"

section \<open>The profile screen (mypage)\<close>

record UserInfo =
  id :: int
  userId :: string
  email :: string
  nickname :: string

text \<open>
  The two alerts of the screen; both carry fixed texts, the one of \<open>fetchData\<close> and
  the one of \<open>confirmLogout\<close>.
\<close>

datatype Alert = FetchFailedAlert | LogoutFailedAlert

text \<open>
  The four \<open>useState\<close> hooks of \<open>MyPageScreen\<close>, and what the screen acts on
  outside itself: the alerts it has shown, the secure key-value store, and the routes it
  has replaced the screen with.
\<close>

record MyPageState =
  userInfo :: "UserInfo option"
  wordCount :: nat
  pageLoading :: bool
  isLogoutModalVisible :: bool
  alerts :: "Alert list"
  secureStore :: "string \<rightharpoonup> string"
  replaced :: "string list"

text \<open>The same filter as on the word list screen, as written in the profile screen.\<close>

definition uniqueWordsMyPage :: "WordData list \<Rightarrow> WordData list" where
  "uniqueWordsMyPage allWords =
     filter_js (\<lambda>w index self. index = findIndex (\<lambda>v. wordId v = wordId w) self) allWords"

text \<open>
  \<open>fetchData\<close>: \<open>Promise.all\<close> over the two requests resolves when both resolve and
  rejects as soon as one rejects; the two setters run only after it has resolved.
\<close>

definition fetchData :: "UserInfo response \<Rightarrow> WordData list response \<Rightarrow> MyPageState \<Rightarrow> MyPageState" where
  "fetchData memberResponse wordResponse s =
     (let s1 = s\<lparr>pageLoading := True\<rparr> in
      case (memberResponse, wordResponse) of
        (Resolved member, Resolved allWords) \<Rightarrow>
          s1\<lparr>userInfo := Some member,
             wordCount := length (uniqueWordsMyPage allWords),
             pageLoading := False\<rparr>
      | _ \<Rightarrow> s1\<lparr>alerts := alerts s1 @ [FetchFailedAlert], pageLoading := False\<rparr>)"

text \<open>
  \<open>SecureStore.deleteItemAsync\<close> belongs to the platform library. It is modelled by
  what it is documented to do: it removes the value stored under the key; the flag says
  whether the platform carries the deletion out, and a deletion that is rejected leaves
  the store as it was.
\<close>

definition deleteItemAsync :: "bool \<Rightarrow> string \<Rightarrow> (string \<rightharpoonup> string) \<Rightarrow> (string \<rightharpoonup> string)" where
  "deleteItemAsync ok key store = (if ok then store(key := None) else store)"

text \<open>
  \<open>confirmLogout\<close>: both deletions are started before \<open>Promise.all\<close> is awaited, so
  each is attempted whatever becomes of the other.
\<close>

definition confirmLogout :: "bool \<Rightarrow> bool \<Rightarrow> MyPageState \<Rightarrow> MyPageState" where
  "confirmLogout accessOk refreshOk s =
     (let s1 = s\<lparr>isLogoutModalVisible := False\<rparr>;
          store1 = deleteItemAsync accessOk ''accessToken'' (secureStore s1);
          store2 = deleteItemAsync refreshOk ''refreshToken'' store1;
          s2 = s1\<lparr>secureStore := store2\<rparr>
      in if accessOk \<and> refreshOk then s2\<lparr>replaced := replaced s2 @ [''/main'']\<rparr>
         else s2\<lparr>alerts := alerts s2 @ [LogoutFailedAlert]\<rparr>)"

section \<open>Auxiliary notions of the statements\<close>

text \<open>A row with its meaning hidden: what a row is apart from its visibility flag.\<close>

definition hideMeaning :: "ProcessedWord \<Rightarrow> ProcessedWord" where
  "hideMeaning w = w\<lparr>isMeaningVisible := False\<rparr>"

text \<open>A fetched list in which one word was captured from two sentences.\<close>

definition sampleWords :: "WordData list" where
  "sampleWords =
     [\<lparr>wordId = 7, sentenceId = 1, word = ''cat'', meanings = [\<lparr>meaning = ''feline''\<rparr>, \<lparr>meaning = ''whip''\<rparr>]\<rparr>,
      \<lparr>wordId = 7, sentenceId = 2, word = ''cat'', meanings = [\<lparr>meaning = ''feline''\<rparr>]\<rparr>,
      \<lparr>wordId = 9, sentenceId = 2, word = ''dog'', meanings = []\<rparr>]"

definition sampleUser :: UserInfo where
  "sampleUser = \<lparr>id = 1, userId = ''kim'', email = ''kim@example.org'', nickname = ''Kim''\<rparr>"

definition sampleMyPage :: MyPageState where
  "sampleMyPage =
     \<lparr>userInfo = Some sampleUser, wordCount = 2, pageLoading = False,
      isLogoutModalVisible = True, alerts = [],
      secureStore = [''accessToken'' \<mapsto> ''a1'', ''refreshToken'' \<mapsto> ''r1'', ''theme'' \<mapsto> ''dark''],
      replaced = []\<rparr>"

section \<open>Properties of the primitives\<close>

lemma findIndex_from_takeWhile:
  "findIndex_from p xs i =
     (if \<exists>x \<in> set xs. p x then i + int (length (takeWhile (\<lambda>x. \<not> p x) xs)) else - 1)"
  by (induction xs arbitrary: i) auto

lemma findIndex_first:
  assumes "k < length xs"
  shows "(findIndex p xs = int k) = (p (xs ! k) \<and> (\<forall>j<k. \<not> p (xs ! j)))"
proof -
  let ?n = "length (takeWhile (\<lambda>x. \<not> p x) xs)"
  show ?thesis
  proof (cases "\<exists>x \<in> set xs. p x")
    case False
    with assms have "\<not> p (xs ! k)" by auto
    with False show ?thesis by (simp add: findIndex_def findIndex_from_takeWhile)
  next
    case True
    have "?n \<noteq> length xs"
    proof
      assume "?n = length xs"
      then have "takeWhile (\<lambda>x. \<not> p x) xs = xs"
        using takeWhile_eq_take [of "\<lambda>x. \<not> p x" xs] by simp
      then have "\<forall>x \<in> set xs. \<not> p x" by (simp only: takeWhile_eq_all_conv)
      with True show False by blast
    qed
    then have n: "?n < length xs"
      using length_takeWhile_le [of "\<lambda>x. \<not> p x" xs] by linarith
    have pn: "p (xs ! ?n)" using nth_length_takeWhile [OF n] by simp
    have before: "\<And>j. j < ?n \<Longrightarrow> \<not> p (xs ! j)"
      using nth_mem [of _ "takeWhile (\<lambda>x. \<not> p x) xs"] set_takeWhileD takeWhile_nth
      by (metis (mono_tags, lifting))
    have "findIndex p xs = int ?n" using True by (simp add: findIndex_def findIndex_from_takeWhile)
    moreover have "(?n = k) = (p (xs ! k) \<and> (\<forall>j<k. \<not> p (xs ! j)))"
      using pn before by (metis linorder_neqE_nat)
    ultimately show ?thesis by simp
  qed
qed

lemma filter_from_nth:
  "filter_from f self xs (int (length pre)) =
     map (\<lambda>k. (pre @ xs) ! k)
       (filter (\<lambda>k. f ((pre @ xs) ! k) (int k) self) [length pre..<length pre + length xs])"
proof (induction xs arbitrary: pre)
  case Nil
  then show ?case by simp
next
  case (Cons x xs)
  have "filter_from f self xs (int (length (pre @ [x]))) =
     map (\<lambda>k. ((pre @ [x]) @ xs) ! k)
       (filter (\<lambda>k. f (((pre @ [x]) @ xs) ! k) (int k) self)
          [length (pre @ [x])..<length (pre @ [x]) + length xs])"
    by (rule Cons.IH)
  then have IH: "filter_from f self xs (int (length pre) + 1) =
     map (\<lambda>k. (pre @ x # xs) ! k)
       (filter (\<lambda>k. f ((pre @ x # xs) ! k) (int k) self)
          [Suc (length pre)..<Suc (length pre + length xs)])"
    by (simp add: add.commute)
  have u: "[length pre..<length pre + length (x # xs)] =
      length pre # [Suc (length pre)..<Suc (length pre + length xs)]"
    using upt_conv_Cons [of "length pre" "length pre + Suc (length xs)"] by simp
  show ?case
    unfolding u by (simp add: IH)
qed

lemma filter_js_nth:
  "filter_js f xs = map (\<lambda>k. xs ! k) (filter (\<lambda>k. f (xs ! k) (int k) xs) [0..<length xs])"
  using filter_from_nth [of f xs xs "[]"] by (simp add: filter_js_def)


lemma digit_char_not_minus: "d < 10 \<Longrightarrow> digit_char d \<noteq> CHR ''-''"
proof -
  assume "d < 10"
  then have "digit_char d \<in> set ''0123456789''"
    unfolding digit_char_def by (intro nth_mem) simp
  then show ?thesis by auto
qed

lemma digit_char_inj: "a < 10 \<Longrightarrow> b < 10 \<Longrightarrow> digit_char a = digit_char b \<Longrightarrow> a = b"
proof -
  assume "a < 10" "b < 10" "digit_char a = digit_char b"
  moreover have "distinct ''0123456789''" by simp
  ultimately show ?thesis
    unfolding digit_char_def by (simp add: nth_eq_iff_index_eq)
qed

lemma string_of_nat_no_minus: "CHR ''-'' \<notin> set (string_of_nat n)"
proof (induction n rule: string_of_nat.induct)
  case (1 n)
  show ?case
  proof (cases "n < 10")
    case True
    then show ?thesis using digit_char_not_minus [of n] by (simp add: string_of_nat.simps [of n])
  next
    case False
    then show ?thesis
      using 1 digit_char_not_minus [of "n mod 10"] by (simp add: string_of_nat.simps [of n])
  qed
qed

lemma string_of_nat_nonempty: "string_of_nat n \<noteq> []"
  by (simp add: string_of_nat.simps [of n])

lemma string_of_nat_inj: "string_of_nat a = string_of_nat b \<Longrightarrow> a = b"
proof (induction a arbitrary: b rule: string_of_nat.induct)
  case (1 a)
  show ?case
  proof (cases "a < 10")
    case a: True
    show ?thesis
    proof (cases "b < 10")
      case True
      with a 1(2) show ?thesis
        by (simp add: string_of_nat.simps [of a] string_of_nat.simps [of b] digit_char_inj)
    next
      case False
      with a 1(2) show ?thesis
        using string_of_nat_nonempty [of "b div 10"]
        by (simp add: string_of_nat.simps [of a] string_of_nat.simps [of b])
    qed
  next
    case a: False
    show ?thesis
    proof (cases "b < 10")
      case True
      with a 1(2) show ?thesis
        using string_of_nat_nonempty [of "a div 10"]
        by (simp add: string_of_nat.simps [of a] string_of_nat.simps [of b])
    next
      case False
      with a 1(2) have pre: "string_of_nat (a div 10) = string_of_nat (b div 10)"
        and dig: "digit_char (a mod 10) = digit_char (b mod 10)"
        by (simp_all add: string_of_nat.simps [of a] string_of_nat.simps [of b])
      from 1(1) [OF a pre] have "a div 10 = b div 10" .
      moreover from dig have "a mod 10 = b mod 10" by (simp add: digit_char_inj)
      ultimately show ?thesis by (metis div_mult_mod_eq)
    qed
  qed
qed

lemma string_of_nat_append_not_minus: "string_of_nat n @ u \<noteq> CHR ''-'' # cs"
proof
  assume eq: "string_of_nat n @ u = CHR ''-'' # cs"
  obtain c rest where cr: "string_of_nat n = c # rest"
    using string_of_nat_nonempty [of n] by (cases "string_of_nat n") auto
  with eq have "c = CHR ''-''" by simp
  with cr have "CHR ''-'' \<in> set (string_of_nat n)" by simp
  then show False using string_of_nat_no_minus [of n] by simp
qed

lemma string_of_number_inj:
  assumes "string_of_number a = string_of_number b"
  shows "a = b"
proof (cases "a < 0"; cases "b < 0")
  assume neg: "a < 0" "b < 0"
  with assms have "string_of_nat (nat (- a)) = string_of_nat (nat (- b))"
    by (simp add: string_of_number_def)
  then have "nat (- a) = nat (- b)" by (rule string_of_nat_inj)
  with neg show ?thesis by simp
next
  assume "a < 0" "\<not> b < 0"
  with assms have "string_of_nat (nat b) @ [] = CHR ''-'' # string_of_nat (nat (- a))"
    by (simp add: string_of_number_def)
  then show ?thesis using string_of_nat_append_not_minus by blast
next
  assume "\<not> a < 0" "b < 0"
  with assms have "string_of_nat (nat a) @ [] = CHR ''-'' # string_of_nat (nat (- b))"
    by (simp add: string_of_number_def)
  then show ?thesis using string_of_nat_append_not_minus by blast
next
  assume pos: "\<not> a < 0" "\<not> b < 0"
  with assms have "string_of_nat (nat a) = string_of_nat (nat b)"
    by (simp add: string_of_number_def)
  then have "nat a = nat b" by (rule string_of_nat_inj)
  with pos show ?thesis by simp
qed

lemma split_at_first:
  "c \<notin> set xs \<Longrightarrow> c \<notin> set xs' \<Longrightarrow> xs @ c # ys = xs' @ c # ys' \<Longrightarrow> xs = xs' \<and> ys = ys'"
proof (induction xs arbitrary: xs')
  case Nil
  then show ?case by (cases xs') auto
next
  case (Cons a xs)
  then show ?case by (cases xs') auto
qed

lemma string_of_nat_split:
  assumes "string_of_nat m @ CHR ''-'' # u = string_of_nat n @ CHR ''-'' # v"
  shows "m = n \<and> u = v"
proof -
  have "string_of_nat m = string_of_nat n \<and> u = v"
    by (rule split_at_first [OF string_of_nat_no_minus string_of_nat_no_minus assms])
  then show ?thesis by (simp add: string_of_nat_inj)
qed

lemma uniqueId_inj:
  assumes "uniqueId w1 s1 = uniqueId w2 s2"
  shows "w1 = w2 \<and> s1 = s2"
proof -
  let ?t1 = "CHR ''-'' # string_of_number s1" and ?t2 = "CHR ''-'' # string_of_number s2"
  from assms have eq: "string_of_number w1 @ ?t1 = string_of_number w2 @ ?t2"
    by (simp add: uniqueId_def)
  have "w1 = w2 \<and> string_of_number s1 = string_of_number s2"
  proof (cases "w1 < 0"; cases "w2 < 0")
    assume neg: "w1 < 0" "w2 < 0"
    with eq have "string_of_nat (nat (- w1)) @ ?t1 = string_of_nat (nat (- w2)) @ ?t2"
      by (simp add: string_of_number_def)
    then have "nat (- w1) = nat (- w2) \<and> string_of_number s1 = string_of_number s2"
      by (rule string_of_nat_split)
    with neg show ?thesis by auto
  next
    assume "w1 < 0" "\<not> w2 < 0"
    with eq have "string_of_nat (nat w2) @ ?t2 = CHR ''-'' # string_of_nat (nat (- w1)) @ ?t1"
      by (simp add: string_of_number_def)
    then show ?thesis by (rule string_of_nat_append_not_minus [THEN notE])
  next
    assume "\<not> w1 < 0" "w2 < 0"
    with eq have "string_of_nat (nat w1) @ ?t1 = CHR ''-'' # string_of_nat (nat (- w2)) @ ?t2"
      by (simp add: string_of_number_def)
    then show ?thesis by (rule string_of_nat_append_not_minus [THEN notE])
  next
    assume pos: "\<not> w1 < 0" "\<not> w2 < 0"
    with eq have "string_of_nat (nat w1) @ ?t1 = string_of_nat (nat w2) @ ?t2"
      by (simp add: string_of_number_def)
    then have "nat w1 = nat w2 \<and> string_of_number s1 = string_of_number s2"
      by (rule string_of_nat_split)
    with pos show ?thesis by auto
  qed
  then show ?thesis by (simp add: string_of_number_inj)
qed

section \<open>Properties of the deduplication and of the keys\<close>

lemma uniqueWords_indices:
  "uniqueWords allWords =
     map (\<lambda>k. allWords ! k)
       (filter (\<lambda>k. int k = findIndex (\<lambda>v. wordId v = wordId (allWords ! k)) allWords)
          [0..<length allWords])"
  by (simp add: uniqueWords_def filter_js_nth)

lemma first_index_iff:
  "k < length allWords \<Longrightarrow>
     (int k = findIndex (\<lambda>v. wordId v = wordId (allWords ! k)) allWords) =
     (\<forall>j<k. wordId (allWords ! j) \<noteq> wordId (allWords ! k))"
  using findIndex_first [of k allWords "\<lambda>v. wordId v = wordId (allWords ! k)"]
  by (simp add: eq_commute [of "int k"])

lemma uniqueWords_firsts:
  "uniqueWords allWords =
     map (\<lambda>k. allWords ! k)
       (filter (\<lambda>k. \<forall>j<k. wordId (allWords ! j) \<noteq> wordId (allWords ! k)) [0..<length allWords])"
proof -
  have "filter (\<lambda>k. int k = findIndex (\<lambda>v. wordId v = wordId (allWords ! k)) allWords) [0..<length allWords]
      = filter (\<lambda>k. \<forall>j<k. wordId (allWords ! j) \<noteq> wordId (allWords ! k)) [0..<length allWords]"
    by (rule filter_cong [OF refl]) (simp add: first_index_iff)
  then show ?thesis by (simp add: uniqueWords_indices)
qed

lemma uniqueWords_distinct_wordId: "distinct (map wordId (uniqueWords allWords))"
proof -
  let ?P = "\<lambda>k. \<forall>j<k. wordId (allWords ! j) \<noteq> wordId (allWords ! k)"
  let ?ks = "filter ?P [0..<length allWords]"
  have "inj_on (\<lambda>k. wordId (allWords ! k)) (set ?ks)"
  proof (rule inj_onI)
    fix a b
    assume a: "a \<in> set ?ks" and b: "b \<in> set ?ks"
      and eq: "wordId (allWords ! a) = wordId (allWords ! b)"
    from a have Pa: "?P a" by simp
    from b have Pb: "?P b" by simp
    show "a = b"
    proof (rule ccontr)
      assume "a \<noteq> b"
      then consider "a < b" | "b < a" by linarith
      then show False
      proof cases
        case 1
        with Pb eq show False by blast
      next
        case 2
        with Pa eq show False by metis
      qed
    qed
  qed
  moreover have "distinct ?ks" by simp
  ultimately have "distinct (map (\<lambda>k. wordId (allWords ! k)) ?ks)"
    by (simp add: distinct_map)
  then show ?thesis by (simp add: uniqueWords_firsts comp_def)
qed

lemma uniqueWords_wordIds: "set (map wordId (uniqueWords allWords)) = set (map wordId allWords)"
proof
  show "set (map wordId (uniqueWords allWords)) \<subseteq> set (map wordId allWords)"
    by (auto simp: uniqueWords_firsts)
next
  show "set (map wordId allWords) \<subseteq> set (map wordId (uniqueWords allWords))"
  proof
    fix x
    assume "x \<in> set (map wordId allWords)"
    then obtain i where i: "i < length allWords" "wordId (allWords ! i) = x"
      by (auto simp: in_set_conv_nth)
    define k where "k = (LEAST j. wordId (allWords ! j) = x)"
    have kx: "wordId (allWords ! k) = x"
      unfolding k_def using i(2) by (rule LeastI)
    have "k \<le> i" unfolding k_def using i(2) by (rule Least_le)
    with i(1) have klen: "k < length allWords" by simp
    have "\<forall>j<k. wordId (allWords ! j) \<noteq> wordId (allWords ! k)"
    proof (intro allI impI)
      fix j
      assume "j < k"
      then have "wordId (allWords ! j) \<noteq> x" unfolding k_def by (rule not_less_Least)
      with kx show "wordId (allWords ! j) \<noteq> wordId (allWords ! k)" by simp
    qed
    with klen have "allWords ! k \<in> set (uniqueWords allWords)"
      by (simp add: uniqueWords_firsts)
    with kx show "x \<in> set (map wordId (uniqueWords allWords))" by force
  qed
qed

lemma uniqueWordsMyPage_eq: "uniqueWordsMyPage allWords = uniqueWords allWords"
  by (simp add: uniqueWordsMyPage_def uniqueWords_def)

lemma keyExtractor_processWord: "keyExtractor (processWord w) = uniqueId (wordId w) (sentenceId w)"
  by (simp add: keyExtractor_def processWord_def)

lemma keyExtractor_visible [simp]:
  "keyExtractor (w\<lparr>isMeaningVisible := b\<rparr>) = keyExtractor w"
  by (simp add: keyExtractor_def)

lemma distinct_keys_processedData: "distinct (map keyExtractor (processedData allWords))"
proof -
  have "inj_on (\<lambda>w. uniqueId (wordId w) (sentenceId w)) (set (uniqueWords allWords))"
  proof (rule inj_onI)
    fix a b
    assume a: "a \<in> set (uniqueWords allWords)" and b: "b \<in> set (uniqueWords allWords)"
      and eq: "uniqueId (wordId a) (sentenceId a) = uniqueId (wordId b) (sentenceId b)"
    from eq have "wordId a = wordId b" by (simp add: uniqueId_inj)
    moreover have "inj_on wordId (set (uniqueWords allWords))"
      using uniqueWords_distinct_wordId [of allWords] by (simp add: distinct_map)
    ultimately show "a = b" using a b by (simp add: inj_on_def)
  qed
  moreover have "distinct (uniqueWords allWords)"
    using uniqueWords_distinct_wordId [of allWords] by (simp add: distinct_map)
  ultimately have "distinct (map (\<lambda>w. uniqueId (wordId w) (sentenceId w)) (uniqueWords allWords))"
    by (simp add: distinct_map)
  then show ?thesis
    by (simp add: processedData_def comp_def keyExtractor_processWord)
qed

lemma keys_handleToggleAllMeanings:
  "map keyExtractor (words (handleToggleAllMeanings s)) = map keyExtractor (words s)"
  by (simp add: handleToggleAllMeanings_def Let_def comp_def)

lemma keys_handleItemToggle:
  "map keyExtractor (words (handleItemToggle uid s)) = map keyExtractor (words s)"
  by (simp add: handleItemToggle_def comp_def if_distrib [of keyExtractor] cong: if_cong)

lemma distinct_keys_homeStep:
  "distinct (map keyExtractor (words s)) \<Longrightarrow> distinct (map keyExtractor (words (homeStep s e)))"
proof (cases e)
  case (FetchSettled r)
  assume "distinct (map keyExtractor (words s))"
  then show ?thesis using FetchSettled
    by (cases r) (simp_all add: fetchWords_def distinct_keys_processedData)
next
  case PressToggleAll
  assume "distinct (map keyExtractor (words s))"
  then show ?thesis using PressToggleAll by (simp add: keys_handleToggleAllMeanings)
next
  case (PressItemToggle uid)
  assume "distinct (map keyExtractor (words s))"
  then show ?thesis using PressItemToggle by (simp add: keys_handleItemToggle)
qed

lemma distinct_keys_foldl:
  "distinct (map keyExtractor (words s)) \<Longrightarrow>
     distinct (map keyExtractor (words (foldl homeStep s evs)))"
  by (induction evs arbitrary: s) (simp_all add: distinct_keys_homeStep)

lemma hide_processedData: "map hideMeaning (processedData allWords) = processedData allWords"
  by (simp add: processedData_def hideMeaning_def processWord_def)

lemma hide_homeStep:
  "map hideMeaning (words (homeStep s e)) =
     (case e of FetchSettled (Resolved allWords) \<Rightarrow> processedData allWords
              | _ \<Rightarrow> map hideMeaning (words s))"
proof (cases e)
  case (FetchSettled r)
  then show ?thesis by (cases r) (simp_all add: fetchWords_def hide_processedData)
next
  case PressToggleAll
  then show ?thesis by (simp add: handleToggleAllMeanings_def Let_def hideMeaning_def comp_def)
next
  case (PressItemToggle uid)
  then show ?thesis by (simp add: handleItemToggle_def hideMeaning_def comp_def)
qed

lemma hide_foldl:
  "map hideMeaning (words (foldl homeStep s evs)) =
     (case lastFetched evs of None \<Rightarrow> map hideMeaning (words s)
                            | Some allWords \<Rightarrow> processedData allWords)"
proof (induction evs arbitrary: s)
  case Nil
  show ?case by simp
next
  case (Cons e evs)
  show ?case
  proof (cases e)
    case (FetchSettled r)
    then show ?thesis
      by (cases r) (simp_all add: Cons.IH fetchWords_def hide_processedData split: option.splits)
  next
    case PressToggleAll
    then show ?thesis
      by (simp add: Cons.IH hide_homeStep [of s PressToggleAll, simplified] split: option.splits)
  next
    case (PressItemToggle uid)
    then show ?thesis
      by (simp add: Cons.IH hide_homeStep [of s "PressItemToggle uid", simplified] split: option.splits)
  qed
qed

section \<open>The claims about the word list screen\<close>

text \<open>
  Claim C1. The deduplication of the word list screen keeps the entry at index \<open>k\<close> of
  the fetched list exactly when no entry at an earlier index has the same \<open>wordId\<close>,
  and keeps the retained entries in the order of the fetched list; the rows the screen
  holds after a successful fetch are these entries, processed.
\<close>

theorem fetchWords_keeps_first_occurrences:
  "uniqueWords allWords =
     map (\<lambda>k. allWords ! k)
       (filter (\<lambda>k. \<forall>j<k. wordId (allWords ! j) \<noteq> wordId (allWords ! k)) [0..<length allWords])
   \<and> words (fetchWords (Resolved allWords) s) =
     map (\<lambda>k. processWord (allWords ! k))
       (filter (\<lambda>k. \<forall>j<k. wordId (allWords ! j) \<noteq> wordId (allWords ! k)) [0..<length allWords])"
proof
  show "uniqueWords allWords =
     map (\<lambda>k. allWords ! k)
       (filter (\<lambda>k. \<forall>j<k. wordId (allWords ! j) \<noteq> wordId (allWords ! k)) [0..<length allWords])"
    by (rule uniqueWords_firsts)
  then have "processedData allWords =
     map processWord (map (\<lambda>k. allWords ! k)
       (filter (\<lambda>k. \<forall>j<k. wordId (allWords ! j) \<noteq> wordId (allWords ! k)) [0..<length allWords]))"
    by (simp only: processedData_def)
  then show "words (fetchWords (Resolved allWords) s) =
     map (\<lambda>k. processWord (allWords ! k))
       (filter (\<lambda>k. \<forall>j<k. wordId (allWords ! j) \<noteq> wordId (allWords ! k)) [0..<length allWords])"
    by (simp add: fetchWords_def comp_def)
qed

text \<open>
  On the sample list the entries at indices 0 and 2 are kept; the second capture of word 7
  (index 1) is not.
\<close>

theorem fetchWords_keeps_first_occurrences_witness:
  "uniqueWords sampleWords = [sampleWords ! 0, sampleWords ! 2]
   \<and> map sentenceId (words (fetchWords (Resolved sampleWords) initialHome)) = [1, 2]"
  using fetchWords_keeps_first_occurrences [of sampleWords initialHome]
  by (simp add: sampleWords_def processWord_def upt_rec All_less_Suc)

text \<open>
  Claim C2, as stated, fails: two fetched entries with the same \<open>wordId\<close> and different
  \<open>sentenceId\<close> do not both survive; the second is dropped.
\<close>

theorem dedup_ignores_sentenceId_counterexample:
  "uniqueWords
     [\<lparr>wordId = 7, sentenceId = 1, word = ''cat'', meanings = []\<rparr>,
      \<lparr>wordId = 7, sentenceId = 2, word = ''cat'', meanings = []\<rparr>]
   = [\<lparr>wordId = 7, sentenceId = 1, word = ''cat'', meanings = []\<rparr>]"
  by (simp add: uniqueWords_def filter_js_def findIndex_def)

text \<open>
  Claim C2, amended. The deduplication is keyed by the \<open>wordId\<close> alone: the retained
  entries have pairwise different \<open>wordId\<close>s, every \<open>wordId\<close> of the fetched list is
  retained once, and the rows of the screen carry exactly these \<open>wordId\<close>s. So two
  entries both survive only when their \<open>wordId\<close>s differ, whatever their
  \<open>sentenceId\<close>s.
\<close>

theorem dedup_keyed_by_wordId:
  "distinct (map wordId (uniqueWords allWords))
   \<and> set (map wordId (uniqueWords allWords)) = set (map wordId allWords)
   \<and> map wordId (words (fetchWords (Resolved allWords) s)) = map wordId (uniqueWords allWords)"
proof -
  have "map wordId (words (fetchWords (Resolved allWords) s)) = map wordId (uniqueWords allWords)"
    by (simp add: fetchWords_def processedData_def comp_def processWord_def)
  then show ?thesis
    using uniqueWords_distinct_wordId [of allWords] uniqueWords_wordIds [of allWords] by simp
qed

text \<open>
  Claim C3. The toggle of a row, called with a key \<open>uid\<close>, leaves the number of rows
  and the two other state variables as they are; the row at every index is the old row
  with \<open>isMeaningVisible\<close> negated when its composite key equals \<open>uid\<close>, and the old
  row itself otherwise. For a key of the form \<open>wordId-sentenceId\<close> the rows with that
  key are the rows with that \<open>wordId\<close> and that \<open>sentenceId\<close>.
\<close>

theorem handleItemToggle_flips_matching_rows:
  "isLoading (handleItemToggle uid s) = isLoading s
   \<and> showAllMeanings (handleItemToggle uid s) = showAllMeanings s
   \<and> length (words (handleItemToggle uid s)) = length (words s)
   \<and> (\<forall>i<length (words s).
        words (handleItemToggle uid s) ! i =
          (if keyExtractor (words s ! i) = uid
           then (words s ! i)\<lparr>isMeaningVisible := \<not> isMeaningVisible (words s ! i)\<rparr>
           else words s ! i))
   \<and> (\<forall>i<length (words s).
        (keyExtractor (words s ! i) = uniqueId wid sid) =
          (wordId (words s ! i) = wid \<and> sentenceId (words s ! i) = sid))"
proof -
  have "\<And>w. (keyExtractor w = uniqueId wid sid) = (wordId w = wid \<and> sentenceId w = sid)"
    using uniqueId_inj by (auto simp: keyExtractor_def)
  then show ?thesis by (simp add: handleItemToggle_def keyExtractor_def)
qed

text \<open>
  After the sample list is fetched, pressing the toggle of the row of word 9 shows that
  row's meaning and changes nothing else.
\<close>

theorem handleItemToggle_flips_matching_rows_witness:
  "map isMeaningVisible
     (words (handleItemToggle (uniqueId 9 2) (fetchWords (Resolved sampleWords) initialHome)))
     = [False, True]
   \<and> map hideMeaning
     (words (handleItemToggle (uniqueId 9 2) (fetchWords (Resolved sampleWords) initialHome)))
     = words (fetchWords (Resolved sampleWords) initialHome)"
proof -
  let ?s = "fetchWords (Resolved sampleWords) initialHome"
  have w: "words ?s = [processWord (sampleWords ! 0), processWord (sampleWords ! 2)]"
    by (simp add: fetchWords_def processedData_def sampleWords_def uniqueWords_def
        filter_js_def findIndex_def)
  have k0: "keyExtractor (processWord (sampleWords ! 0)) \<noteq> uniqueId 9 2"
    using uniqueId_inj [of 7 1 9 2] by (auto simp: keyExtractor_processWord sampleWords_def)
  have k2: "keyExtractor (processWord (sampleWords ! 2)) = uniqueId 9 2"
    by (simp add: keyExtractor_processWord sampleWords_def)
  from handleItemToggle_flips_matching_rows [of "uniqueId 9 2" ?s 9 2]
  have "length (words (handleItemToggle (uniqueId 9 2) ?s)) = 2"
    and "words (handleItemToggle (uniqueId 9 2) ?s) ! 0 = processWord (sampleWords ! 0)"
    and "words (handleItemToggle (uniqueId 9 2) ?s) ! 1 =
           (processWord (sampleWords ! 2))\<lparr>isMeaningVisible := True\<rparr>"
    using k0 k2 by (simp_all add: w All_less_Suc numeral_2_eq_2 processWord_def)
  then have "words (handleItemToggle (uniqueId 9 2) ?s) =
      [processWord (sampleWords ! 0), (processWord (sampleWords ! 2))\<lparr>isMeaningVisible := True\<rparr>]"
    by (simp add: list_eq_iff_nth_eq All_less_Suc numeral_2_eq_2)
  then show ?thesis by (simp add: w processWord_def hideMeaning_def)
qed

text \<open>
  Claim C4. The header checkbox negates \<open>showAllMeanings\<close>, keeps \<open>isLoading\<close> and
  the number of rows, and turns the row at every index into the old row with
  \<open>isMeaningVisible\<close> set to the new value of the flag.
\<close>

theorem handleToggleAllMeanings_sets_every_row:
  "showAllMeanings (handleToggleAllMeanings s) = (\<not> showAllMeanings s)
   \<and> isLoading (handleToggleAllMeanings s) = isLoading s
   \<and> length (words (handleToggleAllMeanings s)) = length (words s)
   \<and> (\<forall>i<length (words s).
        words (handleToggleAllMeanings s) ! i =
          (words s ! i)\<lparr>isMeaningVisible := showAllMeanings (handleToggleAllMeanings s)\<rparr>)"
  by (simp add: handleToggleAllMeanings_def Let_def)

text \<open>
  After the sample list is fetched, pressing the header checkbox sets the flag and shows
  the meaning of both rows, which are otherwise unchanged.
\<close>

theorem handleToggleAllMeanings_sets_every_row_witness:
  "showAllMeanings (handleToggleAllMeanings (fetchWords (Resolved sampleWords) initialHome))
   \<and> map isMeaningVisible
        (words (handleToggleAllMeanings (fetchWords (Resolved sampleWords) initialHome)))
      = [True, True]
   \<and> map hideMeaning
        (words (handleToggleAllMeanings (fetchWords (Resolved sampleWords) initialHome)))
      = words (fetchWords (Resolved sampleWords) initialHome)"
proof -
  let ?s = "fetchWords (Resolved sampleWords) initialHome"
  have w: "words ?s = [processWord (sampleWords ! 0), processWord (sampleWords ! 2)]"
    by (simp add: fetchWords_def processedData_def sampleWords_def uniqueWords_def
        filter_js_def findIndex_def)
  have f: "\<not> showAllMeanings ?s" by (simp add: fetchWords_def initialHome_def)
  from handleToggleAllMeanings_sets_every_row [of ?s]
  have "showAllMeanings (handleToggleAllMeanings ?s)"
    and "length (words (handleToggleAllMeanings ?s)) = 2"
    and "words (handleToggleAllMeanings ?s) ! 0 =
           (processWord (sampleWords ! 0))\<lparr>isMeaningVisible := True\<rparr>"
    and "words (handleToggleAllMeanings ?s) ! 1 =
           (processWord (sampleWords ! 2))\<lparr>isMeaningVisible := True\<rparr>"
    using f by (simp_all add: w All_less_Suc numeral_2_eq_2)
  then have "showAllMeanings (handleToggleAllMeanings ?s)"
    and "words (handleToggleAllMeanings ?s) =
      [(processWord (sampleWords ! 0))\<lparr>isMeaningVisible := True\<rparr>,
       (processWord (sampleWords ! 2))\<lparr>isMeaningVisible := True\<rparr>]"
    by (simp_all add: list_eq_iff_nth_eq All_less_Suc numeral_2_eq_2)
  then show ?thesis by (simp add: w processWord_def hideMeaning_def)
qed

text \<open>
  Claim C5. A run of \<open>fetchWords\<close> whose request is rejected changes nothing but
  \<open>isLoading\<close>: the rows and \<open>showAllMeanings\<close> are those of before. After any
  history of the screen the rows, visibility flags apart, are the processed payload of
  the last fetch that succeeded, and there are no rows when none has succeeded; a
  rejected fetch leaves that as it is.
\<close>

theorem fetchWords_rejected_keeps_words:
  "fetchWords Rejected s = s\<lparr>isLoading := False\<rparr>
   \<and> words (fetchWords Rejected s) = words s
   \<and> showAllMeanings (fetchWords Rejected s) = showAllMeanings s
   \<and> map hideMeaning (words (fetchWords Rejected (homeRun evs))) =
       (case lastFetched evs of None \<Rightarrow> [] | Some allWords \<Rightarrow> processedData allWords)"
proof -
  have "map hideMeaning (words (homeRun evs)) =
       (case lastFetched evs of None \<Rightarrow> [] | Some allWords \<Rightarrow> processedData allWords)"
    using hide_foldl [of initialHome evs]
    by (simp add: homeRun_def initialHome_def split: option.splits)
  then show ?thesis by (simp add: fetchWords_def)
qed

text \<open>
  Claim C9. After a successful fetch the keys \<open>wordId-sentenceId\<close> of the rows are
  pairwise distinct; both toggles leave the list of keys as it is (no row is added,
  removed or given another key); so the keys are pairwise distinct after every history
  of the screen.
\<close>

theorem row_keys_stay_distinct:
  "distinct (map keyExtractor (words (fetchWords (Resolved allWords) s)))
   \<and> map keyExtractor (words (handleToggleAllMeanings s)) = map keyExtractor (words s)
   \<and> map keyExtractor (words (handleItemToggle uid s)) = map keyExtractor (words s)
   \<and> distinct (map keyExtractor (words (homeRun evs)))"
proof -
  have "distinct (map keyExtractor (words (fetchWords (Resolved allWords) s)))"
    by (simp add: fetchWords_def distinct_keys_processedData)
  moreover have "distinct (map keyExtractor (words (homeRun evs)))"
    unfolding homeRun_def by (rule distinct_keys_foldl) (simp add: initialHome_def)
  ultimately show ?thesis
    by (simp add: keys_handleToggleAllMeanings keys_handleItemToggle)
qed

text \<open>
  Claim C10. A successful fetch leaves \<open>showAllMeanings\<close> as it is and yields rows
  none of which has its meaning visible.
\<close>

theorem fetchWords_hides_every_meaning:
  "showAllMeanings (fetchWords (Resolved allWords) s) = showAllMeanings s
   \<and> (\<forall>w \<in> set (words (fetchWords (Resolved allWords) s)). \<not> isMeaningVisible w)"
  by (simp add: fetchWords_def processedData_def processWord_def)

text \<open>
  A refresh while the header checkbox is set: the flag stays set, and the meaning of
  neither row is visible.
\<close>

theorem fetchWords_hides_every_meaning_witness:
  "showAllMeanings (fetchWords (Resolved sampleWords)
      (handleToggleAllMeanings (fetchWords (Resolved sampleWords) initialHome)))
   \<and> map isMeaningVisible (words (fetchWords (Resolved sampleWords)
      (handleToggleAllMeanings (fetchWords (Resolved sampleWords) initialHome)))) = [False, False]"
proof -
  let ?s = "handleToggleAllMeanings (fetchWords (Resolved sampleWords) initialHome)"
  have f: "showAllMeanings ?s"
    by (simp add: handleToggleAllMeanings_def fetchWords_def initialHome_def)
  have n: "length (words (fetchWords (Resolved sampleWords) ?s)) = 2"
    by (simp add: fetchWords_def processedData_def sampleWords_def uniqueWords_def
        filter_js_def findIndex_def)
  from fetchWords_hides_every_meaning [of sampleWords ?s] f
  have "showAllMeanings (fetchWords (Resolved sampleWords) ?s)"
    and "\<forall>v \<in> set (map isMeaningVisible (words (fetchWords (Resolved sampleWords) ?s))). v = False"
    by simp_all
  with n show ?thesis
    by (simp add: list_eq_iff_nth_eq All_less_Suc numeral_2_eq_2)
qed

section \<open>The claims about the profile screen\<close>

text \<open>
  Claim C6. When the member request or the word request is rejected, \<open>fetchData\<close>
  shows the one alert of the fetch and ends the loading; \<open>userInfo\<close> and
  \<open>wordCount\<close> keep the values they had.
\<close>

theorem fetchData_rejected_keeps_profile:
  "fetchData Rejected wordResponse s = s\<lparr>alerts := alerts s @ [FetchFailedAlert], pageLoading := False\<rparr>
   \<and> fetchData memberResponse Rejected s = s\<lparr>alerts := alerts s @ [FetchFailedAlert], pageLoading := False\<rparr>
   \<and> userInfo (fetchData Rejected wordResponse s) = userInfo s
   \<and> wordCount (fetchData Rejected wordResponse s) = wordCount s
   \<and> userInfo (fetchData memberResponse Rejected s) = userInfo s
   \<and> wordCount (fetchData memberResponse Rejected s) = wordCount s"
  by (cases memberResponse; cases wordResponse) (simp_all add: fetchData_def)

text \<open>
  On the sample profile: whichever request is rejected, the user and the count of
  before remain, and one alert is shown even when both are rejected.
\<close>

theorem fetchData_rejected_keeps_profile_witness:
  "userInfo (fetchData Rejected (Resolved sampleWords) sampleMyPage) = Some sampleUser
   \<and> wordCount (fetchData (Resolved sampleUser) Rejected sampleMyPage) = 2
   \<and> alerts (fetchData Rejected Rejected sampleMyPage) = [FetchFailedAlert]"
  using fetchData_rejected_keeps_profile [of "Resolved sampleWords" sampleMyPage "Resolved sampleUser"]
    fetchData_rejected_keeps_profile [of Rejected sampleMyPage Rejected]
  by (simp add: sampleMyPage_def)

text \<open>
  Claim C7. A confirmed logout whose two deletions are carried out removes the entries
  under \<open>accessToken\<close> and \<open>refreshToken\<close> from the secure store, replaces the
  screen with \<open>/main\<close> and shows no alert; whatever becomes of the deletions, every
  other key of the store keeps its entry.
\<close>

theorem confirmLogout_clears_two_tokens:
  "secureStore (confirmLogout True True s) =
     (secureStore s)(''accessToken'' := None, ''refreshToken'' := None)
   \<and> replaced (confirmLogout True True s) = replaced s @ [''/main'']
   \<and> alerts (confirmLogout True True s) = alerts s
   \<and> secureStore (confirmLogout accessOk refreshOk s) |` (- {''accessToken'', ''refreshToken''}) =
       secureStore s |` (- {''accessToken'', ''refreshToken''})"
  by (auto simp: confirmLogout_def deleteItemAsync_def Let_def restrict_map_def fun_eq_iff)

text \<open>
  On the sample profile the two tokens are gone after the logout and the entry under
  \<open>theme\<close> is still there.
\<close>

theorem confirmLogout_clears_two_tokens_witness:
  "secureStore (confirmLogout True True sampleMyPage) ''accessToken'' = None
   \<and> secureStore (confirmLogout True True sampleMyPage) ''refreshToken'' = None
   \<and> secureStore (confirmLogout True True sampleMyPage) ''theme'' = Some ''dark''
   \<and> replaced (confirmLogout True True sampleMyPage) = [''/main'']"
  using confirmLogout_clears_two_tokens [of sampleMyPage True True]
  by (simp add: sampleMyPage_def)

text \<open>
  Claim C8. For the same fetched list, the word count the profile screen stores is the
  number of rows the word list screen holds, and the filters of the two screens return
  the same list.
\<close>

theorem wordCount_equals_rows_of_home:
  "wordCount (fetchData (Resolved member) (Resolved allWords) p) =
     length (words (fetchWords (Resolved allWords) h))
   \<and> uniqueWordsMyPage allWords = uniqueWords allWords"
  by (simp add: fetchData_def fetchWords_def processedData_def uniqueWordsMyPage_eq)

end
